theory Spec2Isabelle
  imports Main "HOL-Library.Word"
begin

unbundle bit_operations_syntax

section \<open>Python values, JSON documents, exceptions\<close>

text \<open>
  The two handlers (\<^verbatim>\<open>src/url_parser.py\<close>, the ingestion handler, and
  \<^verbatim>\<open>src/json_endpoint.py\<close>, the query handler) work on the values that
  \<^verbatim>\<open>csv.DictReader\<close> and \<^verbatim>\<open>json.loads\<close> build: \<^verbatim>\<open>None\<close>, booleans,
  integers, strings, lists and dictionaries. A dictionary is an association list in
  insertion order whose keys are strings or \<^verbatim>\<open>None\<close> (the \<^verbatim>\<open>restkey\<close> of
  \<^verbatim>\<open>DictReader\<close>). JSON numbers are restricted to integers: floating point values are
  outside the model.
\<close>

datatype pykey = KNone | KStr string

datatype pyval =
    PNone
  | PBool bool
  | PInt int
  | PStr string
  | PList "pyval list"
  | PDict "(pykey \<times> pyval) list"

text \<open>
  The text of a JSON document is represented by its syntax tree. An object of the text
  is the list of its members as written, so a member name may occur twice in it.
\<close>

datatype json =
    JNull
  | JBool bool
  | JNumber int
  | JString string
  | JArray "json list"
  | JObject "(string \<times> json) list"

text \<open>The exceptions that the two handlers let propagate to the runtime.\<close>

datatype error =
    ConnectionError
  | HTTPError nat
  | UnicodeDecodeError
  | CsvError
  | ClientError
  | NoSuchKey
  | JSONDecodeError
  | KeyError
  | TypeError
  | AttributeError
  | IndexError

subsection \<open>Dictionaries\<close>

text \<open>\<^verbatim>\<open>d[k] = v\<close>: an existing key keeps its position, a new key goes last.\<close>

fun dict_set :: "'k \<Rightarrow> 'v \<Rightarrow> ('k \<times> 'v) list \<Rightarrow> ('k \<times> 'v) list" where
  "dict_set k v [] = [(k, v)]"
| "dict_set k v (p # ps) = (if fst p = k then (k, v) # ps else p # dict_set k v ps)"

text \<open>\<^verbatim>\<open>dict(pairs)\<close>: the pairs are stored one after the other, a later pair
  overwriting the value of an earlier one with the same key.\<close>

definition dict :: "('k \<times> 'v) list \<Rightarrow> ('k \<times> 'v) list" where
  "dict pairs = fold (\<lambda>p d. dict_set (fst p) (snd p) d) pairs []"

subsection \<open>The operators the query handler applies to values\<close>

text \<open>Truth value testing, as in \<^verbatim>\<open>x or {}\<close>, \<^verbatim>\<open>if item_id:\<close>, \<^verbatim>\<open>if item:\<close>.\<close>

fun py_truthy :: "pyval \<Rightarrow> bool" where
  "py_truthy PNone = False"
| "py_truthy (PBool b) = b"
| "py_truthy (PInt n) = (n \<noteq> 0)"
| "py_truthy (PStr s) = (s \<noteq> [])"
| "py_truthy (PList xs) = (xs \<noteq> [])"
| "py_truthy (PDict d) = (d \<noteq> [])"

text \<open>\<^verbatim>\<open>a == b\<close>. A boolean equals the integer 0 or 1; dictionaries are compared
  without regard to order.\<close>

fun py_eq :: "pyval \<Rightarrow> pyval \<Rightarrow> bool" where
  "py_eq PNone PNone = True"
| "py_eq (PBool a) (PBool b) = (a = b)"
| "py_eq (PBool a) (PInt n) = (n = (if a then 1 else 0))"
| "py_eq (PInt n) (PBool a) = (n = (if a then 1 else 0))"
| "py_eq (PInt m) (PInt n) = (m = n)"
| "py_eq (PStr s) (PStr t) = (s = t)"
| "py_eq (PList xs) (PList ys) = list_all2 py_eq xs ys"
| "py_eq (PDict d) (PDict e) =
     (length d = length e \<and>
      list_all (\<lambda>p. case map_of e (fst p) of None \<Rightarrow> False | Some w \<Rightarrow> py_eq (snd p) w) d)"
| "py_eq _ _ = False"

text \<open>\<^verbatim>\<open>x[key]\<close> with a string key: \<^verbatim>\<open>KeyError\<close> on a dictionary without the
  key, \<^verbatim>\<open>TypeError\<close> on every other value.\<close>

fun py_getitem :: "pyval \<Rightarrow> string \<Rightarrow> error + pyval" where
  "py_getitem (PDict d) key =
     (case map_of d (KStr key) of None \<Rightarrow> Inl KeyError | Some v \<Rightarrow> Inr v)"
| "py_getitem _ key = Inl TypeError"

text \<open>\<^verbatim>\<open>x.get(key)\<close>: only a dictionary has the method.\<close>

fun py_get :: "pyval \<Rightarrow> string \<Rightarrow> error + pyval" where
  "py_get (PDict d) key =
     (case map_of d (KStr key) of None \<Rightarrow> Inr PNone | Some v \<Rightarrow> Inr v)"
| "py_get _ key = Inl AttributeError"

text \<open>\<^verbatim>\<open>iter(x)\<close>, as the elements it yields: a list yields its elements, a
  dictionary its keys, a string its characters.\<close>

fun key_value :: "pykey \<Rightarrow> pyval" where
  "key_value KNone = PNone"
| "key_value (KStr s) = PStr s"

fun py_iter :: "pyval \<Rightarrow> error + pyval list" where
  "py_iter (PList xs) = Inr xs"
| "py_iter (PDict d) = Inr (map (\<lambda>p. key_value (fst p)) d)"
| "py_iter (PStr s) = Inr (map (\<lambda>c. PStr [c]) s)"
| "py_iter _ = Inl TypeError"

subsection \<open>\<^verbatim>\<open>json.dumps\<close> and \<^verbatim>\<open>json.loads\<close>\<close>

text \<open>\<^verbatim>\<open>json.dumps\<close> writes the key \<^verbatim>\<open>None\<close> as the member name \<^verbatim>\<open>null\<close>.\<close>

fun key_name :: "pykey \<Rightarrow> string" where
  "key_name KNone = ''null''"
| "key_name (KStr s) = s"

primrec json_dumps :: "pyval \<Rightarrow> json" where
  "json_dumps PNone = JNull"
| "json_dumps (PBool b) = JBool b"
| "json_dumps (PInt n) = JNumber n"
| "json_dumps (PStr s) = JString s"
| "json_dumps (PList xs) = JArray (map json_dumps xs)"
| "json_dumps (PDict kvs) = JObject (map (map_prod key_name json_dumps) kvs)"

text \<open>\<^verbatim>\<open>json.loads\<close> builds a dictionary from the members of an object in the order of
  the text; of a repeated member name the last value is kept.\<close>

primrec json_loads :: "json \<Rightarrow> pyval" where
  "json_loads JNull = PNone"
| "json_loads (JBool b) = PBool b"
| "json_loads (JNumber n) = PInt n"
| "json_loads (JString s) = PStr s"
| "json_loads (JArray xs) = PList (map json_loads xs)"
| "json_loads (JObject kvs) = PDict (dict (map (map_prod KStr json_loads) kvs))"

section \<open>The collaborators: configuration, blob storage, HTTP, randomness\<close>

text \<open>\<^verbatim>\<open>os.environ\<close>: the three settings the modules read when they are loaded.\<close>

record environ =
  bucket_name :: string
  csv_url :: string
  json_key :: string

text \<open>
  The bytes of a stored object are either not UTF-8, or text that is not JSON, or the
  text of a JSON document.
\<close>

datatype blob = NotUtf8 | NotJson | JsonText json

record s3_object =
  Body :: blob
  ContentType :: string

text \<open>The storage service: its objects by bucket and key, and whether a call to it
  succeeds at all (permissions, transient failures).\<close>

record s3 =
  objects :: "string \<times> string \<rightharpoonup> s3_object"
  available :: bool

definition get_object :: "s3 \<Rightarrow> string \<Rightarrow> string \<Rightarrow> error + s3_object" where
  "get_object s Bucket Key =
     (if \<not> available s then Inl ClientError
      else case objects s (Bucket, Key) of
             None \<Rightarrow> Inl NoSuchKey
           | Some obj \<Rightarrow> Inr obj)"

definition put_object :: "s3 \<Rightarrow> string \<Rightarrow> string \<Rightarrow> json \<Rightarrow> string \<Rightarrow> (error + unit) \<times> s3" where
  "put_object s Bucket Key json_body content_type =
     (if \<not> available s then (Inl ClientError, s)
      else (Inr (),
            s\<lparr>objects := (objects s)((Bucket, Key) \<mapsto>
                 \<lparr>Body = JsonText json_body, ContentType = content_type\<rparr>)\<rparr>))"

text \<open>\<^verbatim>\<open>response['Body'].read().decode('utf-8')\<close> followed by \<^verbatim>\<open>json.loads\<close>.\<close>

fun loads_body :: "blob \<Rightarrow> error + pyval" where
  "loads_body NotUtf8 = Inl UnicodeDecodeError"
| "loads_body NotJson = Inl JSONDecodeError"
| "loads_body (JsonText j) = Inr (json_loads j)"

text \<open>
  The body of an HTTP response is given by what \<^verbatim>\<open>content.decode('utf-8')\<close>,
  \<^verbatim>\<open>splitlines\<close> and the \<^verbatim>\<open>csv\<close> reader make of it: bytes that are not UTF-8,
  lines the reader rejects, or the rows of cells the reader yields, one per line, the
  empty row for a blank line.
\<close>

datatype content = Undecodable | Unreadable | Rows "string list list"

record http_response =
  status_code :: nat
  content :: content

datatype fetch = Unreachable | Fetched http_response

text \<open>\<^verbatim>\<open>requests.get(url)\<close> against a web that answers each URL with an outcome.\<close>

definition requests_get :: "(string \<Rightarrow> fetch) \<Rightarrow> string \<Rightarrow> error + http_response" where
  "requests_get web url =
     (case web url of Unreachable \<Rightarrow> Inl ConnectionError | Fetched r \<Rightarrow> Inr r)"

text \<open>\<^verbatim>\<open>Response.raise_for_status\<close> raises for the client and server error codes,
  400 to 599, and for no other status.\<close>

definition raise_for_status :: "http_response \<Rightarrow> error + unit" where
  "raise_for_status r =
     (if 400 \<le> status_code r \<and> status_code r < 600 then Inl (HTTPError (status_code r))
      else Inr ())"

fun csv_reader :: "content \<Rightarrow> error + string list list" where
  "csv_reader Undecodable = Inl UnicodeDecodeError"
| "csv_reader Unreadable = Inl CsvError"
| "csv_reader (Rows rows) = Inr rows"

subsection \<open>\<^verbatim>\<open>csv.DictReader\<close>\<close>

text \<open>
  One dictionary per row: the cells under the field names; the cells beyond the field
  names as a list under the key \<^verbatim>\<open>None\<close>; the field names beyond the cells with the
  value \<^verbatim>\<open>None\<close>.
\<close>

definition DictReader_row :: "string list \<Rightarrow> string list \<Rightarrow> (pykey \<times> pyval) list" where
  "DictReader_row fieldnames row =
     (let d = dict (zip (map KStr fieldnames) (map PStr row));
          lf = length fieldnames;
          lr = length row
      in if lf < lr then dict_set KNone (PList (map PStr (drop lf row))) d
         else if lf > lr then fold (\<lambda>key. dict_set (KStr key) PNone) (drop lr fieldnames) d
         else d)"

text \<open>The first row the reader yields gives the field names; of the rows after it the
  empty ones are skipped.\<close>

definition DictReader :: "string list list \<Rightarrow> (pykey \<times> pyval) list list" where
  "DictReader rows =
     (case rows of
        [] \<Rightarrow> []
      | fieldnames # rest \<Rightarrow> map (DictReader_row fieldnames) (filter (\<lambda>row. row \<noteq> []) rest))"

subsection \<open>\<^verbatim>\<open>str(uuid.uuid4())\<close>\<close>

text \<open>\<^verbatim>\<open>uuid4\<close> takes 16 random bytes as a 128-bit number and overwrites the variant
  and version bits.\<close>

definition uuid4 :: "128 word \<Rightarrow> 128 word" where
  "uuid4 r =
     (((r AND NOT (push_bit 48 0xc000)) OR push_bit 48 0x8000)
        AND NOT (push_bit 64 0xf000)) OR push_bit 76 4"

definition hexdigit :: "nat \<Rightarrow> char" where
  "hexdigit n = ''0123456789abcdef'' ! n"

text \<open>\<^verbatim>\<open>'%032x' % int\<close>: the 32 hexadecimal digits, the most significant first.\<close>

definition hex32 :: "128 word \<Rightarrow> string" where
  "hex32 w = map (\<lambda>i. hexdigit (unat (drop_bit (4 * (31 - i)) w AND 15))) [0..<32]"

definition uuid_str :: "128 word \<Rightarrow> string" where
  "uuid_str w =
     (let x = hex32 w
      in take 8 x @ ''-'' @ take 4 (drop 8 x) @ ''-'' @ take 4 (drop 12 x) @ ''-'' @
         take 4 (drop 16 x) @ ''-'' @ drop 20 x)"

section \<open>The ingestion handler (\<^verbatim>\<open>src/url_parser.py\<close>)\<close>

record response =
  statusCode :: nat
  body :: json
  headers :: "(string \<times> string) list option"

text \<open>
  The loop over the reader. \<open>urandom\<close> is the source of random bytes, \<open>n\<close> the number of
  draws made so far: each row takes the next draw for its \<^verbatim>\<open>id\<close> and is appended
  to \<open>json_data\<close>.
\<close>

fun for_rows ::
  "(nat \<Rightarrow> 128 word) \<Rightarrow> nat \<Rightarrow> (pykey \<times> pyval) list list \<Rightarrow> pyval list \<Rightarrow> pyval list" where
  "for_rows urandom n [] json_data = json_data"
| "for_rows urandom n (row # rows) json_data =
     for_rows urandom (Suc n) rows
       (json_data @ [PDict (dict_set (KStr ''id'') (PStr (uuid_str (uuid4 (urandom n)))) row)])"

definition url_parser_lambda_handler ::
  "environ \<Rightarrow> (string \<Rightarrow> fetch) \<Rightarrow> (nat \<Rightarrow> 128 word) \<Rightarrow> s3 \<Rightarrow> (error + response) \<times> s3" where
  "url_parser_lambda_handler env web urandom s =
     (case requests_get web (csv_url env) of
        Inl e \<Rightarrow> (Inl e, s)
      | Inr response \<Rightarrow>
     (case raise_for_status response of
        Inl e \<Rightarrow> (Inl e, s)
      | Inr _ \<Rightarrow>
     (case csv_reader (content response) of
        Inl e \<Rightarrow> (Inl e, s)
      | Inr csv_data \<Rightarrow>
     (let json_data = for_rows urandom 0 (DictReader csv_data) [];
          json_body = json_dumps (PList json_data)
      in case put_object s (bucket_name env) (json_key env) json_body ''application/json'' of
           (Inl e, s') \<Rightarrow> (Inl e, s')
         | (Inr _, s') \<Rightarrow>
             (Inr \<lparr>statusCode = 200,
                   body = json_dumps (PStr ''CSV successfully processed and stored as JSON in S3''),
                   headers = None\<rparr>, s')))))"

section \<open>The query handler (\<^verbatim>\<open>src/json_endpoint.py\<close>)\<close>

text \<open>
  \<^verbatim>\<open>next((obj for obj in json_data if obj['id'] == item_id), None)\<close>: the objects are
  visited in order; the subscript \<^verbatim>\<open>obj['id']\<close> is evaluated for each one visited
  and its exception ends the scan.
\<close>

fun next_match :: "pyval list \<Rightarrow> pyval \<Rightarrow> error + pyval" where
  "next_match [] item_id = Inr PNone"
| "next_match (obj # objs) item_id =
     (case py_getitem obj ''id'' of
        Inl e \<Rightarrow> Inl e
      | Inr v \<Rightarrow> if py_eq v item_id then Inr obj else next_match objs item_id)"

text \<open>
  \<^verbatim>\<open>random.choice(seq)\<close>: \<^verbatim>\<open>IndexError\<close> on an empty sequence, otherwise
  \<^verbatim>\<open>seq[i]\<close> for a random index below the length, here \<open>rnd mod length\<close> for a random
  number \<open>rnd\<close>. A dictionary has a length but no integer keys; a value without a length
  is a \<^verbatim>\<open>TypeError\<close>.
\<close>

fun random_choice :: "nat \<Rightarrow> pyval \<Rightarrow> error + pyval" where
  "random_choice rnd (PList xs) =
     (if xs = [] then Inl IndexError else Inr (xs ! (rnd mod length xs)))"
| "random_choice rnd (PStr s) =
     (if s = [] then Inl IndexError else Inr (PStr [s ! (rnd mod length s)]))"
| "random_choice rnd (PDict d) = (if d = [] then Inl IndexError else Inl KeyError)"
| "random_choice rnd _ = Inl TypeError"

definition json_response :: "pyval \<Rightarrow> response" where
  "json_response item =
     \<lparr>statusCode = 200,
      body = json_dumps item,
      headers = Some [(''Content-Type'', ''application/json'')]\<rparr>"

text \<open>The last two statements of the handler, reached when no item was returned by id.\<close>

definition random_item_response :: "nat \<Rightarrow> pyval \<Rightarrow> error + response" where
  "random_item_response rnd json_data =
     (case random_choice rnd json_data of
        Inl e \<Rightarrow> Inl e
      | Inr random_item \<Rightarrow> Inr (json_response random_item))"

definition json_endpoint_lambda_handler ::
  "environ \<Rightarrow> s3 \<Rightarrow> nat \<Rightarrow> pyval \<Rightarrow> error + response" where
  "json_endpoint_lambda_handler env s rnd event =
     (case get_object s (bucket_name env) (json_key env) of
        Inl e \<Rightarrow> Inl e
      | Inr response \<Rightarrow>
     (case loads_body (Body response) of
        Inl e \<Rightarrow> Inl e
      | Inr json_data \<Rightarrow>
     (case py_getitem event ''queryStringParameters'' of
        Inl e \<Rightarrow> Inl e
      | Inr q \<Rightarrow>
     (let query_params = (if py_truthy q then q else PDict [])
      in case py_get query_params ''id'' of
           Inl e \<Rightarrow> Inl e
         | Inr item_id \<Rightarrow>
             if py_truthy item_id then
               (case py_iter json_data of
                  Inl e \<Rightarrow> Inl e
                | Inr objs \<Rightarrow>
               (case next_match objs item_id of
                  Inl e \<Rightarrow> Inl e
                | Inr item \<Rightarrow>
                    if py_truthy item then Inr (json_response item)
                    else random_item_response rnd json_data))
             else random_item_response rnd json_data))))"

section \<open>Vocabulary of the properties\<close>

text \<open>The value the handler takes for the \<^verbatim>\<open>id\<close> query parameter (lines 14 and 15 of
  the query handler): \<^verbatim>\<open>None\<close> when the parameters are null or empty or have no
  \<^verbatim>\<open>id\<close>.\<close>

definition query_id :: "pyval \<Rightarrow> error + pyval" where
  "query_id event =
     (case py_getitem event ''queryStringParameters'' of
        Inl e \<Rightarrow> Inl e
      | Inr q \<Rightarrow> py_get (if py_truthy q then q else PDict []) ''id'')"

text \<open>A record carries an \<^verbatim>\<open>id\<close> key; it matches a requested id when the value under
  that key equals it.\<close>

definition has_id_key :: "pyval \<Rightarrow> bool" where
  "has_id_key obj = (case py_getitem obj ''id'' of Inl e \<Rightarrow> False | Inr v \<Rightarrow> True)"

definition id_equals :: "pyval \<Rightarrow> pyval \<Rightarrow> bool" where
  "id_equals item_id obj =
     (case py_getitem obj ''id'' of Inl e \<Rightarrow> False | Inr v \<Rightarrow> py_eq v item_id)"

text \<open>The values of all members of a JSON object that carry a given name, in the order
  of the text.\<close>

fun member_values :: "string \<Rightarrow> json \<Rightarrow> json list" where
  "member_values name (JObject kvs) = map snd (filter (\<lambda>p. fst p = name) kvs)"
| "member_values name _ = []"

text \<open>No object of the document repeats a member name.\<close>

fun unique_names :: "json \<Rightarrow> bool" where
  "unique_names (JArray xs) = list_all unique_names xs"
| "unique_names (JObject kvs) =
     (distinct (map fst kvs) \<and> list_all (\<lambda>p. unique_names (snd p)) kvs)"
| "unique_names _ = True"

text \<open>The record set a store holds under the configured bucket and key, when the object
  there is a JSON array.\<close>

definition stored_records :: "environ \<Rightarrow> s3 \<Rightarrow> json list option" where
  "stored_records env s =
     (case objects s (bucket_name env, json_key env) of
        None \<Rightarrow> None
      | Some obj \<Rightarrow> (case Body obj of JsonText (JArray objs) \<Rightarrow> Some objs | _ \<Rightarrow> None))"

subsection \<open>Example inputs\<close>

definition example_env :: environ where
  "example_env =
     \<lparr>bucket_name = ''bucket'', csv_url = ''https://example.org/data.csv'', json_key = ''data.json''\<rparr>"

text \<open>A web that answers every URL with the given status and body.\<close>

definition serve :: "nat \<Rightarrow> content \<Rightarrow> string \<Rightarrow> fetch" where
  "serve status c url = Fetched \<lparr>status_code = status, content = c\<rparr>"

text \<open>The rows of \<^verbatim>\<open>name,color\nlemon,yellow\napple,red\<close>.\<close>

definition example_rows :: "string list list" where
  "example_rows = [[''name'', ''color''], [''lemon'', ''yellow''], [''apple'', ''red'']]"

text \<open>A source of random bytes whose draws all differ, and one whose draws are all the
  same.\<close>

definition counting_urandom :: "nat \<Rightarrow> 128 word" where
  "counting_urandom n = of_nat n"

definition stuck_urandom :: "nat \<Rightarrow> 128 word" where
  "stuck_urandom n = 0"

definition empty_s3 :: s3 where
  "empty_s3 = \<lparr>objects = Map.empty, available = True\<rparr>"

text \<open>A store that holds one object, under the configured bucket and key.\<close>

definition s3_holding :: "environ \<Rightarrow> blob \<Rightarrow> s3" where
  "s3_holding env b =
     \<lparr>objects = [(bucket_name env, json_key env) \<mapsto> \<lparr>Body = b, ContentType = ''application/json''\<rparr>],
      available = True\<rparr>"

definition example_records :: "json list" where
  "example_records =
     [JObject [(''name'', JString ''lemon''), (''color'', JString ''yellow''),
               (''id'', JString ''00000000-0000-4000-8000-000000000000'')],
      JObject [(''name'', JString ''apple''), (''color'', JString ''red''),
               (''id'', JString ''00000000-0000-4000-8000-000000000001'')]]"

text \<open>A stored array whose second object has no \<^verbatim>\<open>id\<close>.\<close>

definition no_id_records :: "json list" where
  "no_id_records =
     [JObject [(''name'', JString ''lemon''), (''id'', JString ''a'')],
      JObject [(''name'', JString ''apple'')],
      JObject [(''name'', JString ''plum''), (''id'', JString ''c'')]]"

text \<open>The event of a request with the query string \<^verbatim>\<open>id=i\<close>.\<close>

definition id_event :: "string \<Rightarrow> pyval" where
  "id_event i = PDict [(KStr ''queryStringParameters'', PDict [(KStr ''id'', PStr i)])]"

section \<open>Lemmas: identifiers\<close>

lemma hex32_len: "length (hex32 w) = 32" by (simp add: hex32_def)

lemma hexdigit_inj: "m < 16 \<Longrightarrow> n < 16 \<Longrightarrow> hexdigit m = hexdigit n \<Longrightarrow> m = n"
proof -
  assume a: "m < 16" "n < 16" "hexdigit m = hexdigit n"
  have d: "distinct ''0123456789abcdef''" by simp
  have l: "length ''0123456789abcdef'' = 16" by simp
  from a show ?thesis unfolding hexdigit_def
    using nth_eq_iff_index_eq[OF d, of m n] l by simp
qed

lemma nibble_lt: "unat ((w :: 128 word) AND 15) < 16"
proof -
  have "w AND 15 \<le> 15" by (rule word_and_le1)
  then have "unat (w AND 15) \<le> unat (15 :: 128 word)" by (simp add: word_le_nat_alt)
  then show ?thesis by simp
qed

lemma hex32_inj: assumes "hex32 v = hex32 w" shows "v = w"
proof (rule bit_word_eqI)
  fix n assume n: "n < LENGTH(128)"
  then have n128: "n < 128" by simp
  let ?i = "31 - n div 4"
  have i: "?i < 32" by simp
  have "hex32 v ! ?i = hex32 w ! ?i" using assms by simp
  then have "hexdigit (unat (drop_bit (4 * (31 - ?i)) v AND 15)) = hexdigit (unat (drop_bit (4 * (31 - ?i)) w AND 15))"
    using i by (simp add: hex32_def del: upt_Suc)
  then have "unat (drop_bit (4 * (31 - ?i)) v AND 15) = unat (drop_bit (4 * (31 - ?i)) w AND 15)"
    using hexdigit_inj nibble_lt by blast
  then have e: "drop_bit (4 * (n div 4)) v AND 15 = drop_bit (4 * (n div 4)) w AND 15"
    using n128 by (simp add: word_unat_eq_iff)
  have m: "(15 :: 128 word) = mask 4" by (simp add: mask_eq_exp_minus_1)
  have "bit (drop_bit (4 * (n div 4)) v AND 15) (n mod 4) = bit (drop_bit (4 * (n div 4)) w AND 15) (n mod 4)"
    using e by simp
  moreover have "n mod 4 < 4" by simp
  then have "n mod 4 < 128" by linarith
  ultimately show "bit v n = bit w n"
    unfolding m by (simp add: bit_simps)
qed

lemma uuid_str_inj: assumes "uuid_str v = uuid_str w" shows "v = w"
proof -
  define x where "x = hex32 v"
  define y where "y = hex32 w"
  have lx: "length x = 32" and ly: "length y = 32" by (simp_all add: x_def y_def hex32_len)
  from assms have "take 8 x @ ''-'' @ take 4 (drop 8 x) @ ''-'' @ take 4 (drop 12 x) @ ''-'' @ take 4 (drop 16 x) @ ''-'' @ drop 20 x
     = take 8 y @ ''-'' @ take 4 (drop 8 y) @ ''-'' @ take 4 (drop 12 y) @ ''-'' @ take 4 (drop 16 y) @ ''-'' @ drop 20 y"
    by (simp add: uuid_str_def Let_def x_def y_def)
  then have p: "take 8 x = take 8 y" "take 4 (drop 8 x) = take 4 (drop 8 y)" "take 4 (drop 12 x) = take 4 (drop 12 y)"
     "take 4 (drop 16 x) = take 4 (drop 16 y)" "drop 20 x = drop 20 y"
    using lx ly by simp_all
  have dec: "\<And>z :: string. z = take 8 z @ take 4 (drop 8 z) @ take 4 (drop 12 z) @ take 4 (drop 16 z) @ drop 20 z"
  proof -
    fix z :: string
    have a: "take 4 (drop 8 z) @ drop 12 z = drop 8 z"
      using append_take_drop_id[of 4 "drop 8 z"] by (simp del: append_take_drop_id)
    have b: "take 4 (drop 12 z) @ drop 16 z = drop 12 z"
      using append_take_drop_id[of 4 "drop 12 z"] by (simp del: append_take_drop_id)
    have c: "take 4 (drop 16 z) @ drop 20 z = drop 16 z"
      using append_take_drop_id[of 4 "drop 16 z"] by (simp del: append_take_drop_id)
    show "z = take 8 z @ take 4 (drop 8 z) @ take 4 (drop 12 z) @ take 4 (drop 16 z) @ drop 20 z"
      by (simp only: a b c append_take_drop_id)
  qed
  have "x = y" using dec[of x] dec[of y] p by metis
  then show ?thesis unfolding x_def y_def by (rule hex32_inj)
qed


lemma uuid_str_len: "length (uuid_str w) = 36"
  by (simp add: uuid_str_def Let_def hex32_len)

lemma uuid_str_nonempty: "uuid_str w \<noteq> []"
  using uuid_str_len[of w] by auto

text \<open>The identifiers of the example sources of random bytes.\<close>

lemma uuid_str_zero: "uuid_str (uuid4 0) = ''00000000-0000-4000-8000-000000000000''"
  by code_simp

lemma uuid_str_one: "uuid_str (uuid4 1) = ''00000000-0000-4000-8000-000000000001''"
  by code_simp

lemma counting_urandom_0: "counting_urandom 0 = 0"
  by (simp add: counting_urandom_def)

lemma counting_urandom_1: "counting_urandom (Suc 0) = 1"
  by (simp add: counting_urandom_def)

section \<open>Lemmas: dictionaries, \<^verbatim>\<open>json.dumps\<close> and \<^verbatim>\<open>json.loads\<close>\<close>

lemma keys_dict_set:
  "map fst (dict_set k v d) = (if k \<in> set (map fst d) then map fst d else map fst d @ [k])"
  by (induction d) auto

lemma set_keys_dict_set: "set (map fst (dict_set k v d)) = insert k (set (map fst d))"
  by (simp add: keys_dict_set) auto

lemma distinct_dict_set: "distinct (map fst d) \<Longrightarrow> distinct (map fst (dict_set k v d))"
  by (simp add: keys_dict_set)

lemma length_dict_set: "length (dict_set k v d) = (if k \<in> set (map fst d) then length d else Suc (length d))"
  by (induction d) auto

lemma map_of_dict_set: "map_of (dict_set k v d) = (map_of d)(k \<mapsto> v)"
  by (induction d) (auto simp: fun_eq_iff)

lemma dict_set_fresh: "k \<notin> set (map fst d) \<Longrightarrow> dict_set k v d = d @ [(k, v)]"
  by (induction d) auto

lemma fold_dict_set_fresh:
  "distinct (map fst ps) \<Longrightarrow> set (map fst ps) \<inter> set (map fst acc) = {} \<Longrightarrow>
   fold (\<lambda>p d. dict_set (fst p) (snd p) d) ps acc = acc @ ps"
proof (induction ps arbitrary: acc)
  case Nil then show ?case by simp
next
  case (Cons p ps)
  have "dict_set (fst p) (snd p) acc = acc @ [p]"
    using Cons.prems by (simp add: dict_set_fresh)
  moreover have "fold (\<lambda>p d. dict_set (fst p) (snd p) d) ps (acc @ [p]) = (acc @ [p]) @ ps"
    using Cons.prems by (intro Cons.IH) auto
  ultimately show ?case by simp
qed

lemma dict_distinct_id: "distinct (map fst ps) \<Longrightarrow> dict ps = ps"
  by (simp add: dict_def fold_dict_set_fresh)

lemma fold_dict_set_distinct:
  "distinct (map fst acc) \<Longrightarrow> distinct (map fst (fold (\<lambda>p d. dict_set (fst p) (snd p) d) ps acc))"
  by (induction ps arbitrary: acc) (simp_all add: distinct_dict_set)

lemma distinct_dict: "distinct (map fst (dict ps))"
  by (simp add: dict_def fold_dict_set_distinct)

lemma fold_dict_set_keys:
  "set (map fst (fold (\<lambda>p d. dict_set (fst p) (snd p) d) ps acc)) = set (map fst ps) \<union> set (map fst acc)"
  by (induction ps arbitrary: acc) (auto simp add: set_keys_dict_set simp del: set_map)

lemma keys_dict: "set (map fst (dict ps)) = set (map fst ps)"
  using fold_dict_set_keys[of ps "[]"] by (simp add: dict_def)

lemma map_of_fold_dict_set:
  "map_of (fold (\<lambda>p d. dict_set (fst p) (snd p) d) ps acc) = map_of acc ++ map_of (rev ps)"
proof (induction ps arbitrary: acc)
  case Nil then show ?case by simp
next
  case (Cons p ps)
  show ?case
    by (simp add: Cons.IH map_of_dict_set fun_eq_iff map_add_def split: option.splits)
qed

lemma map_of_dict: "map_of (dict ps) = map_of (rev ps)"
  by (simp add: dict_def map_of_fold_dict_set)

lemma dumps_loads: "unique_names j \<Longrightarrow> json_dumps (json_loads j) = j"
proof (induction j)
  case (JArray xs)
  then show ?case by (simp add: list_all_iff map_idI)
next
  case (JObject kvs)
  have d: "distinct (map fst (map (map_prod KStr json_loads) kvs))"
    using JObject.prems by (simp add: distinct_map inj_on_def comp_def)
  have "map (\<lambda>p. map_prod key_name json_dumps (map_prod KStr json_loads p)) kvs = kvs"
  proof (rule map_idI)
    fix p assume p: "p \<in> set kvs"
    obtain a b where ab: "p = (a, b)" by (cases p)
    have "unique_names b" using JObject.prems p ab by (auto simp: list_all_iff)
    then have "json_dumps (json_loads b) = b"
      using JObject.IH[of p b] p ab by simp
    then show "map_prod key_name json_dumps (map_prod KStr json_loads p) = p"
      using ab by simp
  qed
  then have "map (map_prod key_name json_dumps) (map (map_prod KStr json_loads) kvs) = kvs"
    by (simp add: comp_def)
  then show ?case using d by (simp add: dict_distinct_id)
qed simp_all


lemma filter_dict_set:
  "distinct (map fst d) \<Longrightarrow> filter (\<lambda>p. fst p = k) (dict_set k v d) = [(k, v)]"
proof (induction d)
  case Nil
  then show ?case by simp
next
  case (Cons p ps)
  show ?case
  proof (cases "fst p = k")
    case True
    then have "k \<notin> fst ` set ps" using Cons.prems by auto
    then have "filter (\<lambda>p. fst p = k) ps = []" by (auto simp: filter_empty_conv)
    then show ?thesis using True by simp
  next
    case False
    then show ?thesis using Cons by simp
  qed
qed

lemma filter_dict_set_other:
  "k' \<noteq> k \<Longrightarrow> filter (\<lambda>p. fst p = k') (dict_set k v d) = filter (\<lambda>p. fst p = k') d"
  by (induction d) auto

lemma values_dict_set: "snd ` set (dict_set k v d) \<subseteq> insert v (snd ` set d)"
  by (induction d) auto

lemma fold_keys_distinct:
  "distinct (map fst acc) \<Longrightarrow> distinct (map fst (fold (\<lambda>key. dict_set (f key) v) keys acc))"
  by (induction keys arbitrary: acc) (simp_all add: distinct_dict_set)

lemma fold_keys_keys:
  "set (map fst (fold (\<lambda>key. dict_set (f key) v) keys acc)) = f ` set keys \<union> set (map fst acc)"
  by (induction keys arbitrary: acc) (auto simp add: set_keys_dict_set simp del: set_map)

lemma fold_keys_values:
  "snd ` set (fold (\<lambda>key. dict_set (f key) v) keys acc) \<subseteq> insert v (snd ` set acc)"
proof (induction keys arbitrary: acc)
  case Nil
  then show ?case by auto
next
  case (Cons key keys)
  show ?case using Cons.IH[of "dict_set (f key) v acc"] values_dict_set[of "f key" v acc]
    by auto
qed

lemma fold_dict_set_values:
  "snd ` set (fold (\<lambda>p d. dict_set (fst p) (snd p) d) ps acc) \<subseteq> snd ` set ps \<union> snd ` set acc"
proof (induction ps arbitrary: acc)
  case Nil
  then show ?case by auto
next
  case (Cons p ps)
  show ?case using Cons.IH[of "dict_set (fst p) (snd p) acc"] values_dict_set[of "fst p" "snd p" acc]
    by auto
qed

lemma values_dict: "snd ` set (dict ps) \<subseteq> snd ` set ps"
  using fold_dict_set_values[of ps "[]"] by (simp add: dict_def)

section \<open>Lemmas: the reader and the loop of the ingestion handler\<close>

lemma distinct_DictReader_row: "distinct (map fst (DictReader_row fieldnames row))"
  by (simp add: DictReader_row_def Let_def distinct_dict distinct_dict_set fold_keys_distinct)

lemma keys_DictReader_row:
  "set (map fst (DictReader_row fieldnames row)) =
     KStr ` set fieldnames \<union> (if length fieldnames < length row then {KNone} else {})"
proof -
  let ?d = "dict (zip (map KStr fieldnames) (map PStr row))"
  have z: "set (map fst ?d) = KStr ` set (take (length row) fieldnames)"
    using keys_dict[of "zip (map KStr fieldnames) (map PStr row)"]
    by (simp add: map_fst_zip_take take_map min_def del: set_map) (simp add: take_map)
  show ?thesis
  proof (cases "length fieldnames < length row")
    case True
    then show ?thesis
      using z set_keys_dict_set[of KNone "PList (map PStr (drop (length fieldnames) row))" ?d]
      by (simp add: DictReader_row_def Let_def del: set_map)
  next
    case False
    show ?thesis
    proof (cases "length fieldnames > length row")
      case True
      have "KStr ` set (drop (length row) fieldnames) \<union> KStr ` set (take (length row) fieldnames)
            = KStr ` set fieldnames"
        using set_append[of "take (length row) fieldnames" "drop (length row) fieldnames"]
        by (auto simp del: set_append)
      then show ?thesis
        using z True False fold_keys_keys[of KStr PNone "drop (length row) fieldnames" ?d]
        by (simp add: DictReader_row_def Let_def del: set_map)
    next
      case F2: False
      then show ?thesis
        using z False by (simp add: DictReader_row_def Let_def del: set_map)
    qed
  qed
qed

lemma values_DictReader_row:
  assumes "v \<in> snd ` set (DictReader_row fieldnames row)"
  shows "unique_names (json_dumps v)"
proof -
  let ?d = "dict (zip (map KStr fieldnames) (map PStr row))"
  let ?rest = "PList (map PStr (drop (length fieldnames) row))"
  have z: "snd ` set ?d \<subseteq> PStr ` set row"
    using values_dict[of "zip (map KStr fieldnames) (map PStr row)"]
    by (auto dest!: set_zip_rightD)
  have "snd ` set (DictReader_row fieldnames row) \<subseteq> insert ?rest (insert PNone (snd ` set ?d))"
  proof (cases "length fieldnames < length row")
    case True
    then show ?thesis
      using values_dict_set[of KNone ?rest ?d] by (auto simp add: DictReader_row_def Let_def)
  next
    case False
    then show ?thesis
      using fold_keys_values[of KStr PNone "drop (length row) fieldnames" ?d]
      by (auto simp add: DictReader_row_def Let_def)
  qed
  then have "v \<in> insert ?rest (insert PNone (PStr ` set row))"
    using assms z by blast
  then show ?thesis
    by (auto simp: list_all_iff)
qed

lemma length_DictReader:
  "length (DictReader (fieldnames # rest)) = length (filter (\<lambda>row. row \<noteq> []) rest)"
  by (simp add: DictReader_def)

lemma nth_DictReader:
  "i < length (filter (\<lambda>row. row \<noteq> []) rest) \<Longrightarrow>
   DictReader (fieldnames # rest) ! i = DictReader_row fieldnames (filter (\<lambda>row. row \<noteq> []) rest ! i)"
  by (simp add: DictReader_def)

lemma for_rows_eq:
  "for_rows urandom n rows acc =
     acc @ map (\<lambda>i. PDict (dict_set (KStr ''id'') (PStr (uuid_str (uuid4 (urandom (n + i))))) (rows ! i)))
             [0..<length rows]"
proof (induction rows arbitrary: n acc)
  case Nil
  then show ?case by simp
next
  case (Cons row rows)
  show ?case
    by (simp add: Cons.IH map_upt_Suc del: upt_Suc)
qed

lemma ingest_success:
  assumes "web (csv_url env) = Fetched r"
    and "\<not> (400 \<le> status_code r \<and> status_code r < 600)"
    and "content r = Rows csv_data"
    and "available s"
  shows "url_parser_lambda_handler env web urandom s =
     (Inr \<lparr>statusCode = 200,
           body = JString ''CSV successfully processed and stored as JSON in S3'',
           headers = None\<rparr>,
      s\<lparr>objects := (objects s)((bucket_name env, json_key env) \<mapsto>
            \<lparr>Body = JsonText (JArray (map json_dumps (for_rows urandom 0 (DictReader csv_data) []))),
             ContentType = ''application/json''\<rparr>)\<rparr>)"
  using assms
  by (simp add: url_parser_lambda_handler_def requests_get_def raise_for_status_def
      put_object_def Let_def)

lemma key_name_id: "key_name k = ''id'' \<longleftrightarrow> k = KStr ''id''"
  by (cases k) auto

lemma member_values_dumps:
  "map snd (filter (\<lambda>p. fst p = name) (map (map_prod key_name json_dumps) d)) =
     map (\<lambda>p. json_dumps (snd p)) (filter (\<lambda>p. key_name (fst p) = name) d)"
  by (induction d) auto

lemma filter_dict_set_pred:
  "\<not> P k \<Longrightarrow> filter (\<lambda>p. P (fst p)) (dict_set k v d) = filter (\<lambda>p. P (fst p)) d"
  by (induction d) auto

lemma member_values_written_id:
  "distinct (map fst row) \<Longrightarrow>
   member_values ''id'' (json_dumps (PDict (dict_set (KStr ''id'') (PStr u) row))) = [JString u]"
  by (simp add: member_values_dumps key_name_id filter_dict_set)

lemma member_values_written_other:
  "name \<noteq> ''id'' \<Longrightarrow>
   member_values name (json_dumps (PDict (dict_set (KStr ''id'') v row))) =
   member_values name (json_dumps (PDict row))"
  using filter_dict_set_pred[of "\<lambda>k. key_name k = name" "KStr ''id''" v row]
  by (simp add: member_values_dumps)

text \<open>What a successful run leaves in the store.\<close>

lemma ingest_stored:
  assumes "web (csv_url env) = Fetched r"
    and "\<not> (400 \<le> status_code r \<and> status_code r < 600)"
    and "content r = Rows (fieldnames # rest)"
    and "available s"
    and "rows = filter (\<lambda>row. row \<noteq> []) rest"
  shows "fst (url_parser_lambda_handler env web urandom s) =
           Inr \<lparr>statusCode = 200,
                body = JString ''CSV successfully processed and stored as JSON in S3'',
                headers = None\<rparr>"
    and "available (snd (url_parser_lambda_handler env web urandom s))"
    and "stored_records env (snd (url_parser_lambda_handler env web urandom s)) =
           Some (map (\<lambda>i. json_dumps (PDict (dict_set (KStr ''id'')
                        (PStr (uuid_str (uuid4 (urandom i)))) (DictReader_row fieldnames (rows ! i)))))
                  [0..<length rows])"
    and "objects (snd (url_parser_lambda_handler env web urandom s)) (bucket_name env, json_key env) =
           Some \<lparr>Body = JsonText (JArray (map (\<lambda>i. json_dumps (PDict (dict_set (KStr ''id'')
                        (PStr (uuid_str (uuid4 (urandom i)))) (DictReader_row fieldnames (rows ! i)))))
                  [0..<length rows])), ContentType = ''application/json''\<rparr>"
proof -
  have e: "map json_dumps (for_rows urandom 0 (DictReader (fieldnames # rest)) []) =
       map (\<lambda>i. json_dumps (PDict (dict_set (KStr ''id'')
                        (PStr (uuid_str (uuid4 (urandom i)))) (DictReader_row fieldnames (rows ! i)))))
                  [0..<length rows]"
    unfolding for_rows_eq using assms(5)
    by (simp add: length_DictReader nth_DictReader comp_def del: upt_Suc)
  note run = ingest_success[where web = web and env = env and r = r and s = s
      and csv_data = "fieldnames # rest" and urandom = urandom, OF assms(1-4)]
  show "fst (url_parser_lambda_handler env web urandom s) =
           Inr \<lparr>statusCode = 200,
                body = JString ''CSV successfully processed and stored as JSON in S3'',
                headers = None\<rparr>"
    by (simp add: run)
  show "available (snd (url_parser_lambda_handler env web urandom s))"
    using assms(4) by (simp add: run)
  show "stored_records env (snd (url_parser_lambda_handler env web urandom s)) =
           Some (map (\<lambda>i. json_dumps (PDict (dict_set (KStr ''id'')
                        (PStr (uuid_str (uuid4 (urandom i)))) (DictReader_row fieldnames (rows ! i)))))
                  [0..<length rows])"
    by (simp add: run stored_records_def e del: upt_Suc)
  show "objects (snd (url_parser_lambda_handler env web urandom s)) (bucket_name env, json_key env) =
           Some \<lparr>Body = JsonText (JArray (map (\<lambda>i. json_dumps (PDict (dict_set (KStr ''id'')
                        (PStr (uuid_str (uuid4 (urandom i)))) (DictReader_row fieldnames (rows ! i)))))
                  [0..<length rows])), ContentType = ''application/json''\<rparr>"
    by (simp add: run e del: upt_Suc)
qed

section \<open>Lemmas: the scan of the query handler\<close>

lemma has_id_key_truthy: "has_id_key obj \<Longrightarrow> py_truthy obj"
  by (cases obj) (auto simp: has_id_key_def)

lemma id_equals_has_id_key: "id_equals item_id obj \<Longrightarrow> has_id_key obj"
  by (auto simp: has_id_key_def id_equals_def split: sum.splits)

lemma next_match_find:
  "\<forall>obj \<in> set objs. has_id_key obj \<Longrightarrow>
   next_match objs item_id =
     Inr (case find (id_equals item_id) objs of None \<Rightarrow> PNone | Some obj \<Rightarrow> obj)"
  by (induction objs) (auto simp: has_id_key_def id_equals_def split: sum.splits)

lemma next_match_skip:
  "i \<le> length objs \<Longrightarrow>
   \<forall>j<i. has_id_key (objs ! j) \<and> \<not> id_equals item_id (objs ! j) \<Longrightarrow>
   next_match objs item_id = next_match (drop i objs) item_id"
proof (induction objs arbitrary: i)
  case Nil
  then show ?case by simp
next
  case (Cons obj objs)
  show ?case
  proof (cases i)
    case 0
    then show ?thesis by simp
  next
    case (Suc k)
    have h: "has_id_key obj \<and> \<not> id_equals item_id obj"
      using Cons.prems(2) Suc by auto
    have "\<forall>j<k. has_id_key (objs ! j) \<and> \<not> id_equals item_id (objs ! j)"
      using Cons.prems(2) Suc by auto
    then have "next_match objs item_id = next_match (drop k objs) item_id"
      using Cons.prems(1) Suc by (intro Cons.IH) simp_all
    then show ?thesis
      using h Suc by (auto simp: has_id_key_def id_equals_def split: sum.splits)
  qed
qed

lemma next_match_KeyError:
  assumes "i < length objs"
    and "\<forall>j<i. has_id_key (objs ! j) \<and> \<not> id_equals item_id (objs ! j)"
    and "objs ! i = PDict d"
    and "map_of d (KStr ''id'') = None"
  shows "next_match objs item_id = Inl KeyError"
proof -
  have "next_match objs item_id = next_match (drop i objs) item_id"
    using assms by (intro next_match_skip) simp_all
  also have "drop i objs = objs ! i # drop (Suc i) objs"
    using assms(1) by (simp add: Cons_nth_drop_Suc)
  finally show ?thesis
    using assms(3,4) by simp
qed

lemma next_match_nth:
  assumes "i < length objs"
    and "\<forall>j<i. has_id_key (objs ! j) \<and> \<not> id_equals item_id (objs ! j)"
    and "id_equals item_id (objs ! i)"
  shows "next_match objs item_id = Inr (objs ! i)"
proof -
  have "next_match objs item_id = next_match (drop i objs) item_id"
    using assms by (intro next_match_skip) simp_all
  also have "drop i objs = objs ! i # drop (Suc i) objs"
    using assms(1) by (simp add: Cons_nth_drop_Suc)
  finally show ?thesis
    using assms(3) by (auto simp: id_equals_def split: sum.splits)
qed

lemma handler_status_200:
  "json_endpoint_lambda_handler env s rnd event = Inr resp \<Longrightarrow> statusCode resp = 200"
  by (auto simp: json_endpoint_lambda_handler_def random_item_response_def json_response_def
      Let_def split: sum.splits if_splits)

text \<open>The handler in terms of \<open>query_id\<close>, once the stored object has been read.\<close>

lemma handler_loaded:
  assumes "available s"
    and "objects s (bucket_name env, json_key env) = Some obj"
    and "Body obj = JsonText j"
  shows "json_endpoint_lambda_handler env s rnd event =
     (case query_id event of
        Inl e \<Rightarrow> Inl e
      | Inr item_id \<Rightarrow>
          if py_truthy item_id then
            (case py_iter (json_loads j) of
               Inl e \<Rightarrow> Inl e
             | Inr objs \<Rightarrow>
            (case next_match objs item_id of
               Inl e \<Rightarrow> Inl e
             | Inr item \<Rightarrow>
                 if py_truthy item then Inr (json_response item)
                 else random_item_response rnd (json_loads j)))
          else random_item_response rnd (json_loads j))"
  using assms
  by (simp add: json_endpoint_lambda_handler_def get_object_def query_id_def Let_def
      split: sum.splits)

lemma random_choice_list:
  "xs \<noteq> [] \<Longrightarrow>
   random_item_response rnd (PList xs) = Inr (json_response (xs ! (rnd mod length xs)))"
  by (simp add: random_item_response_def)

section \<open>Lemmas: reading back what the ingestion handler stored\<close>

lemma map_of_filter:
  "map_of xs k = (case filter (\<lambda>p. fst p = k) xs of [] \<Rightarrow> None | p # ps \<Rightarrow> Some (snd p))"
  by (induction xs) auto

lemma loads_id_member:
  assumes "member_values ''id'' w = [JString u]"
  shows "py_getitem (json_loads w) ''id'' = Inr (PStr u)"
proof -
  obtain kvs where w: "w = JObject kvs"
    using assms by (cases w) auto
  let ?x = "map (map_prod KStr json_loads) kvs"
  from assms w have "map snd (filter (\<lambda>p. fst p = ''id'') kvs) = [JString u]"
    by simp
  then obtain p where p: "filter (\<lambda>p. fst p = ''id'') kvs = [p]" "snd p = JString u"
    by auto
  have "p \<in> set (filter (\<lambda>p. fst p = ''id'') kvs)"
    using p(1) by simp
  then have "fst p = ''id''"
    by simp
  then have pp: "p = (''id'', JString u)"
    using p(2) by (cases p) simp
  have "filter (\<lambda>q. fst q = KStr ''id'') ?x =
        map (map_prod KStr json_loads) (filter (\<lambda>p. fst p = ''id'') kvs)"
    by (induction kvs) auto
  then have "filter (\<lambda>q. fst q = KStr ''id'') (rev ?x) = [(KStr ''id'', PStr u)]"
    using p(1) pp by (simp add: rev_filter[symmetric] del: rev_map)
  then have "map_of (rev ?x) (KStr ''id'') = Some (PStr u)"
    by (simp add: map_of_filter[of "rev ?x"])
  then show ?thesis
    using w by (simp add: map_of_dict del: rev_map)
qed

lemma loads_id_member_has_id_key:
  "member_values ''id'' w = [JString u] \<Longrightarrow> has_id_key (json_loads w)"
  by (simp add: has_id_key_def loads_id_member)

lemma loads_id_member_id_equals:
  "member_values ''id'' w = [JString u] \<Longrightarrow> id_equals (PStr v) (json_loads w) \<longleftrightarrow> u = v"
  by (simp add: id_equals_def loads_id_member)

lemma inj_on_key_name:
  "\<not> (KNone \<in> ks \<and> KStr ''null'' \<in> ks) \<Longrightarrow> inj_on key_name ks"
proof (rule inj_onI)
  fix x y
  assume "\<not> (KNone \<in> ks \<and> KStr ''null'' \<in> ks)" "x \<in> ks" "y \<in> ks" "key_name x = key_name y"
  then show "x = y"
    by (cases x; cases y) auto
qed

lemma unique_names_written:
  assumes "''null'' \<notin> set fieldnames \<or> length row \<le> length fieldnames"
  shows "unique_names (json_dumps (PDict (dict_set (KStr ''id'') (PStr u)
           (DictReader_row fieldnames row))))"
proof -
  let ?r = "DictReader_row fieldnames row"
  let ?d = "dict_set (KStr ''id'') (PStr u) ?r"
  have dk: "distinct (map fst ?d)"
    by (simp add: distinct_dict_set distinct_DictReader_row)
  have ks: "set (map fst ?d) = insert (KStr ''id'')
      (KStr ` set fieldnames \<union> (if length fieldnames < length row then {KNone} else {}))"
    by (simp only: set_keys_dict_set keys_DictReader_row)
  have "\<not> (KNone \<in> set (map fst ?d) \<and> KStr ''null'' \<in> set (map fst ?d))"
    unfolding ks using assms by auto
  then have "inj_on key_name (set (map fst ?d))"
    by (rule inj_on_key_name)
  then have 1: "distinct (map key_name (map fst ?d))"
    using dk by (simp add: distinct_map del: set_map map_map)
  have 2: "unique_names (json_dumps v)" if "v \<in> snd ` set ?d" for v
  proof -
    have "v = PStr u \<or> v \<in> snd ` set ?r"
      using that values_dict_set[of "KStr ''id''" "PStr u" ?r] by auto
    then show ?thesis
      using values_DictReader_row by auto
  qed
  have "map fst (map (map_prod key_name json_dumps) ?d) = map key_name (map fst ?d)"
    by (simp add: comp_def)
  then show ?thesis
    using 1 2 by (simp add: list_all_iff del: map_map)
qed

lemma query_returns_stored_record:
  assumes "available s"
    and "objects s (bucket_name env, json_key env) = Some obj"
    and "Body obj = JsonText (JArray objs)"
    and "\<forall>j<length objs. member_values ''id'' (objs ! j) = [JString (ids j)]"
    and "i < length objs"
    and "\<forall>j<i. ids j \<noteq> ids i"
    and "ids i \<noteq> []"
    and "unique_names (objs ! i)"
    and "query_id event = Inr (PStr (ids i))"
  shows "json_endpoint_lambda_handler env s rnd event =
           Inr \<lparr>statusCode = 200, body = objs ! i,
                headers = Some [(''Content-Type'', ''application/json'')]\<rparr>"
proof -
  let ?objs = "map json_loads objs"
  have a: "\<forall>j<i. has_id_key (?objs ! j) \<and> \<not> id_equals (PStr (ids i)) (?objs ! j)"
    using assms(4,5,6) by (simp add: loads_id_member_has_id_key loads_id_member_id_equals)
  have b: "id_equals (PStr (ids i)) (?objs ! i)"
    using assms(4,5) by (simp add: loads_id_member_id_equals)
  have nm: "next_match ?objs (PStr (ids i)) = Inr (?objs ! i)"
    using assms(5) a b by (intro next_match_nth) simp_all
  have t: "py_truthy (?objs ! i)"
    using b by (simp add: id_equals_has_id_key has_id_key_truthy)
  have rt: "json_dumps (json_loads (objs ! i)) = objs ! i"
    using assms(8) by (rule dumps_loads)
  show ?thesis
    using nm t rt assms(5,7,9)
    by (simp add: handler_loaded[OF assms(1-3)] json_response_def)
qed

section \<open>The query handler: properties\<close>

text \<open>
  C2. Let the stored object be a JSON array of records that all carry an \<^verbatim>\<open>id\<close>, and
  let the request carry a non-empty \<^verbatim>\<open>id\<close> parameter that equals the \<^verbatim>\<open>id\<close> of
  some record. Then the handler answers with status 200, the header
  \<^verbatim>\<open>Content-Type: application/json\<close> and, as body, the JSON encoding of the first record
  in array order whose \<^verbatim>\<open>id\<close> equals the parameter; that encoding is the stored object
  itself when the stored object repeats no member name.
\<close>

theorem query_by_id_returns_first_match:
  assumes "available s"
    and "objects s (bucket_name env, json_key env) = Some obj"
    and "Body obj = JsonText (JArray recs)"
    and "py_getitem event ''queryStringParameters'' = Inr (PDict params)"
    and "map_of params (KStr ''id'') = Some item_id"
    and "py_truthy item_id"
    and "\<forall>r \<in> set recs. has_id_key (json_loads r)"
    and "find (id_equals item_id) (map json_loads recs) = Some item"
  shows "json_endpoint_lambda_handler env s rnd event =
           Inr \<lparr>statusCode = 200, body = json_dumps item,
                headers = Some [(''Content-Type'', ''application/json'')]\<rparr> \<and>
         (\<exists>i<length recs. item = json_loads (recs ! i) \<and> id_equals item_id item \<and>
              (\<forall>j<i. \<not> id_equals item_id (json_loads (recs ! j))) \<and>
              (unique_names (recs ! i) \<longrightarrow> json_dumps item = recs ! i))"
proof -
  have nm: "next_match (map json_loads recs) item_id = Inr item"
    using assms(7,8) by (simp add: next_match_find)
  have "id_equals item_id item"
    using assms(8) by (auto simp: find_Some_iff)
  then have t: "py_truthy item"
    by (simp add: id_equals_has_id_key has_id_key_truthy)
  have ne: "params \<noteq> []"
    using assms(5) by auto
  have 1: "json_endpoint_lambda_handler env s rnd event =
           Inr \<lparr>statusCode = 200, body = json_dumps item,
                headers = Some [(''Content-Type'', ''application/json'')]\<rparr>"
    using assms(1-6) nm t ne
    by (simp add: json_endpoint_lambda_handler_def get_object_def json_response_def)
  have 2: "\<exists>i<length recs. item = json_loads (recs ! i) \<and> id_equals item_id item \<and>
              (\<forall>j<i. \<not> id_equals item_id (json_loads (recs ! j))) \<and>
              (unique_names (recs ! i) \<longrightarrow> json_dumps item = recs ! i)"
    using assms(8) by (auto simp: find_Some_iff dumps_loads)
  show ?thesis
    using 1 2 by blast
qed

theorem query_by_id_returns_first_match_witness:
  "json_endpoint_lambda_handler example_env
      (s3_holding example_env (JsonText (JArray example_records))) 7
      (id_event ''00000000-0000-4000-8000-000000000001'') =
   Inr \<lparr>statusCode = 200, body = example_records ! 1,
        headers = Some [(''Content-Type'', ''application/json'')]\<rparr>"
proof -
  have "json_endpoint_lambda_handler example_env
      (s3_holding example_env (JsonText (JArray example_records))) 7
      (id_event ''00000000-0000-4000-8000-000000000001'') =
      Inr \<lparr>statusCode = 200, body = json_dumps (json_loads (example_records ! 1)),
        headers = Some [(''Content-Type'', ''application/json'')]\<rparr> \<and>
      (\<exists>i<length example_records.
         json_loads (example_records ! 1) = json_loads (example_records ! i) \<and>
         id_equals (PStr ''00000000-0000-4000-8000-000000000001'')
           (json_loads (example_records ! 1)) \<and>
         (\<forall>j<i. \<not> id_equals (PStr ''00000000-0000-4000-8000-000000000001'')
                   (json_loads (example_records ! j))) \<and>
         (unique_names (example_records ! i) \<longrightarrow>
            json_dumps (json_loads (example_records ! 1)) = example_records ! i))"
    by (rule query_by_id_returns_first_match[where
          obj = "\<lparr>Body = JsonText (JArray example_records), ContentType = ''application/json''\<rparr>"
          and params = "[(KStr ''id'', PStr ''00000000-0000-4000-8000-000000000001'')]"])
       (simp_all add: s3_holding_def example_env_def example_records_def id_event_def
          has_id_key_def id_equals_def dict_def)
  then show ?thesis
    by (simp add: example_records_def dict_def)
qed

text \<open>
  C4. When the stored record set is the empty array, no request gets a response: the
  handler ends in an error for every event and every random number, and the error is the
  \<^verbatim>\<open>IndexError\<close> of \<^verbatim>\<open>random.choice\<close> whenever the event carries
  \<^verbatim>\<open>queryStringParameters\<close> with the value null or a dictionary (with or without an
  \<^verbatim>\<open>id\<close>, matched by nothing in an empty set).
\<close>

theorem query_empty_record_set_fails:
  assumes "available s"
    and "objects s (bucket_name env, json_key env) = Some obj"
    and "Body obj = JsonText (JArray [])"
  shows "(\<exists>e. json_endpoint_lambda_handler env s rnd event = Inl e) \<and>
         (\<forall>q. py_getitem event ''queryStringParameters'' = Inr q \<longrightarrow>
              (q = PNone \<or> (\<exists>params. q = PDict params)) \<longrightarrow>
              json_endpoint_lambda_handler env s rnd event = Inl IndexError)"
  using assms
  by (auto simp add: json_endpoint_lambda_handler_def get_object_def random_item_response_def
      Let_def split: sum.splits option.splits)

theorem query_empty_record_set_fails_witness:
  "json_endpoint_lambda_handler example_env (s3_holding example_env (JsonText (JArray []))) 3
     (id_event ''00000000-0000-4000-8000-000000000001'') = Inl IndexError"
proof -
  have "(\<exists>e. json_endpoint_lambda_handler example_env
            (s3_holding example_env (JsonText (JArray []))) 3
            (id_event ''00000000-0000-4000-8000-000000000001'') = Inl e) \<and>
        (\<forall>q. py_getitem (id_event ''00000000-0000-4000-8000-000000000001'')
                ''queryStringParameters'' = Inr q \<longrightarrow>
              (q = PNone \<or> (\<exists>params. q = PDict params)) \<longrightarrow>
              json_endpoint_lambda_handler example_env
                (s3_holding example_env (JsonText (JArray []))) 3
                (id_event ''00000000-0000-4000-8000-000000000001'') = Inl IndexError)"
    by (rule query_empty_record_set_fails[where
          obj = "\<lparr>Body = JsonText (JArray []), ContentType = ''application/json''\<rparr>"])
       (simp_all add: s3_holding_def)
  then show ?thesis
    by (simp add: id_event_def)
qed

text \<open>
  C3. Let the stored object be a non-empty JSON array, and let the value the handler
  takes for the \<^verbatim>\<open>id\<close> parameter be absent or empty (\<^verbatim>\<open>None\<close>, the empty string:
  not true), or be matched by no record of a set whose records all carry an \<^verbatim>\<open>id\<close>.
  Then the handler answers with status 200, the JSON header and, as body, the JSON
  encoding of the record at the random index, a record of the set. Whatever the inputs,
  a response of the handler has status 200, so none has status 404.
\<close>

theorem query_falls_back_to_random_record:
  assumes "available s"
    and "objects s (bucket_name env, json_key env) = Some obj"
    and "Body obj = JsonText (JArray recs)"
    and "recs \<noteq> []"
    and "query_id event = Inr item_id"
    and "\<not> py_truthy item_id \<or>
         ((\<forall>r \<in> set recs. has_id_key (json_loads r)) \<and>
          (\<forall>r \<in> set recs. \<not> id_equals item_id (json_loads r)))"
  shows "json_endpoint_lambda_handler env s rnd event =
           Inr \<lparr>statusCode = 200,
                body = json_dumps (json_loads (recs ! (rnd mod length recs))),
                headers = Some [(''Content-Type'', ''application/json'')]\<rparr> \<and>
         recs ! (rnd mod length recs) \<in> set recs \<and>
         (\<forall>env' s' rnd' event' resp.
             json_endpoint_lambda_handler env' s' rnd' event' = Inr resp \<longrightarrow>
             statusCode resp = 200)"
proof -
  have i: "rnd mod length recs < length recs"
    using assms(4) by simp
  have rr: "random_item_response rnd (json_loads (JArray recs)) =
     Inr \<lparr>statusCode = 200,
                body = json_dumps (json_loads (recs ! (rnd mod length recs))),
                headers = Some [(''Content-Type'', ''application/json'')]\<rparr>"
    using assms(4) i by (simp add: random_choice_list json_response_def)
  have 1: "json_endpoint_lambda_handler env s rnd event =
           Inr \<lparr>statusCode = 200,
                body = json_dumps (json_loads (recs ! (rnd mod length recs))),
                headers = Some [(''Content-Type'', ''application/json'')]\<rparr>"
  proof (cases "py_truthy item_id")
    case False
    then show ?thesis
      using rr assms(5) by (simp add: handler_loaded[OF assms(1-3)])
  next
    case True
    then have a: "\<forall>obj \<in> set (map json_loads recs). has_id_key obj"
      and b: "\<forall>obj \<in> set (map json_loads recs). \<not> id_equals item_id obj"
      using assms(6) by auto
    have "find (id_equals item_id) (map json_loads recs) = None"
      using b by (simp add: find_None_iff)
    then have "next_match (map json_loads recs) item_id = Inr PNone"
      using next_match_find[OF a, of item_id] by simp
    then show ?thesis
      using rr assms(5) True by (simp add: handler_loaded[OF assms(1-3)])
  qed
  have 2: "recs ! (rnd mod length recs) \<in> set recs"
    using i by simp
  show ?thesis
    using 1 2 handler_status_200 by blast
qed

theorem query_falls_back_to_random_record_witness:
  "json_endpoint_lambda_handler example_env
      (s3_holding example_env (JsonText (JArray example_records))) 7
      (id_event ''no-such-id'') =
   Inr \<lparr>statusCode = 200, body = example_records ! 1,
        headers = Some [(''Content-Type'', ''application/json'')]\<rparr> \<and>
   json_endpoint_lambda_handler example_env
      (s3_holding example_env (JsonText (JArray example_records))) 7
      (PDict [(KStr ''queryStringParameters'', PNone)]) =
   Inr \<lparr>statusCode = 200, body = example_records ! 1,
        headers = Some [(''Content-Type'', ''application/json'')]\<rparr>"
proof -
  have "json_endpoint_lambda_handler example_env
      (s3_holding example_env (JsonText (JArray example_records))) 7
      (PDict [(KStr ''queryStringParameters'', PNone)]) =
      Inr \<lparr>statusCode = 200,
           body = json_dumps (json_loads (example_records ! (7 mod length example_records))),
           headers = Some [(''Content-Type'', ''application/json'')]\<rparr> \<and>
      example_records ! (7 mod length example_records) \<in> set example_records \<and>
      (\<forall>env' s' rnd' event' resp.
             json_endpoint_lambda_handler env' s' rnd' event' = Inr resp \<longrightarrow>
             statusCode resp = 200)"
    by (rule query_falls_back_to_random_record[where
          obj = "\<lparr>Body = JsonText (JArray example_records), ContentType = ''application/json''\<rparr>"
          and item_id = PNone])
       (simp_all add: s3_holding_def example_records_def query_id_def)
  moreover
  have "json_endpoint_lambda_handler example_env
      (s3_holding example_env (JsonText (JArray example_records))) 7
      (id_event ''no-such-id'') =
      Inr \<lparr>statusCode = 200,
           body = json_dumps (json_loads (example_records ! (7 mod length example_records))),
           headers = Some [(''Content-Type'', ''application/json'')]\<rparr> \<and>
      example_records ! (7 mod length example_records) \<in> set example_records \<and>
      (\<forall>env' s' rnd' event' resp.
             json_endpoint_lambda_handler env' s' rnd' event' = Inr resp \<longrightarrow>
             statusCode resp = 200)"
    by (rule query_falls_back_to_random_record[where
          obj = "\<lparr>Body = JsonText (JArray example_records), ContentType = ''application/json''\<rparr>"
          and item_id = "PStr ''no-such-id''"])
       (simp_all add: s3_holding_def example_env_def example_records_def id_event_def
          has_id_key_def id_equals_def dict_def query_id_def)
  moreover have "7 mod Suc (Suc 0) = Suc 0"
    by presburger
  ultimately show ?thesis
    by (simp add: example_records_def dict_def)
qed

text \<open>
  C9. With a non-empty (true) \<^verbatim>\<open>id\<close> parameter the scan subscripts every record it
  visits with \<^verbatim>\<open>id\<close>: when a record without that key stands before any match, the
  handler fails with \<^verbatim>\<open>KeyError\<close> and makes no random selection. When every record
  of a non-empty set carries the key, the scan returns and the handler responds.
\<close>

theorem query_scan_needs_id_keys:
  assumes "available s"
    and "objects s (bucket_name env, json_key env) = Some obj"
    and "Body obj = JsonText (JArray recs)"
    and "query_id event = Inr item_id"
    and "py_truthy item_id"
  shows "(\<forall>i d. i < length recs \<and> json_loads (recs ! i) = PDict d \<and>
                map_of d (KStr ''id'') = None \<and>
                (\<forall>j<i. has_id_key (json_loads (recs ! j)) \<and>
                        \<not> id_equals item_id (json_loads (recs ! j))) \<longrightarrow>
            json_endpoint_lambda_handler env s rnd event = Inl KeyError) \<and>
         (recs \<noteq> [] \<and> (\<forall>r \<in> set recs. has_id_key (json_loads r)) \<longrightarrow>
            (\<exists>item. next_match (map json_loads recs) item_id = Inr item) \<and>
            (\<exists>resp. json_endpoint_lambda_handler env s rnd event = Inr resp))"
proof (intro conjI allI impI)
  fix i d
  assume h: "i < length recs \<and> json_loads (recs ! i) = PDict d \<and>
                map_of d (KStr ''id'') = None \<and>
                (\<forall>j<i. has_id_key (json_loads (recs ! j)) \<and>
                        \<not> id_equals item_id (json_loads (recs ! j)))"
  have "next_match (map json_loads recs) item_id = Inl KeyError"
  proof (rule next_match_KeyError[where i = i and d = d])
    show "i < length (map json_loads recs)" using h by simp
    show "\<forall>j<i. has_id_key (map json_loads recs ! j) \<and> \<not> id_equals item_id (map json_loads recs ! j)"
      using h by simp
    show "map json_loads recs ! i = PDict d" using h by simp
    show "map_of d (KStr ''id'') = None" using h by simp
  qed
  then show "json_endpoint_lambda_handler env s rnd event = Inl KeyError"
    using assms(4,5) by (simp add: handler_loaded[OF assms(1-3)])
next
  assume h: "recs \<noteq> [] \<and> (\<forall>r \<in> set recs. has_id_key (json_loads r))"
  then have a: "\<forall>obj \<in> set (map json_loads recs). has_id_key obj" by simp
  show "\<exists>item. next_match (map json_loads recs) item_id = Inr item"
    using next_match_find[OF a, of item_id] by blast
  show "\<exists>resp. json_endpoint_lambda_handler env s rnd event = Inr resp"
    using next_match_find[OF a, of item_id] assms(4,5) h
    by (simp add: handler_loaded[OF assms(1-3)] random_choice_list)
qed

theorem query_scan_needs_id_keys_witness:
  "json_endpoint_lambda_handler example_env
      (s3_holding example_env (JsonText (JArray no_id_records))) 7 (id_event ''c'') = Inl KeyError"
proof -
  have "(\<forall>i d. i < length no_id_records \<and> json_loads (no_id_records ! i) = PDict d \<and>
                map_of d (KStr ''id'') = None \<and>
                (\<forall>j<i. has_id_key (json_loads (no_id_records ! j)) \<and>
                        \<not> id_equals (PStr ''c'') (json_loads (no_id_records ! j))) \<longrightarrow>
            json_endpoint_lambda_handler example_env
      (s3_holding example_env (JsonText (JArray no_id_records))) 7 (id_event ''c'') = Inl KeyError) \<and>
         (no_id_records \<noteq> [] \<and> (\<forall>r \<in> set no_id_records. has_id_key (json_loads r)) \<longrightarrow>
            (\<exists>item. next_match (map json_loads no_id_records) (PStr ''c'') = Inr item) \<and>
            (\<exists>resp. json_endpoint_lambda_handler example_env
      (s3_holding example_env (JsonText (JArray no_id_records))) 7 (id_event ''c'') = Inr resp))"
    by (rule query_scan_needs_id_keys[where
          obj = "\<lparr>Body = JsonText (JArray no_id_records), ContentType = ''application/json''\<rparr>"])
       (simp_all add: s3_holding_def id_event_def query_id_def)
  then have "1 < length no_id_records \<and> json_loads (no_id_records ! 1) = PDict [(KStr ''name'', PStr ''apple'')] \<and>
                map_of [(KStr ''name'', PStr ''apple'')] (KStr ''id'') = None \<and>
                (\<forall>j<1. has_id_key (json_loads (no_id_records ! j)) \<and>
                        \<not> id_equals (PStr ''c'') (json_loads (no_id_records ! j))) \<longrightarrow>
            json_endpoint_lambda_handler example_env
      (s3_holding example_env (JsonText (JArray no_id_records))) 7 (id_event ''c'') = Inl KeyError"
    by blast
  then show ?thesis
    by (simp add: no_id_records_def dict_def has_id_key_def id_equals_def)
qed

text \<open>
  C10. Once the stored object is read: an event without the key
  \<^verbatim>\<open>queryStringParameters\<close> makes the handler fail with \<^verbatim>\<open>KeyError\<close>; an event
  whose \<^verbatim>\<open>queryStringParameters\<close> is null gets the random selection, exactly as an
  event whose parameters have no \<^verbatim>\<open>id\<close>.
\<close>

theorem query_event_needs_parameters_key:
  assumes "available s"
    and "objects s (bucket_name env, json_key env) = Some obj"
    and "Body obj = JsonText j"
  shows "(map_of ev (KStr ''queryStringParameters'') = None \<longrightarrow>
            json_endpoint_lambda_handler env s rnd (PDict ev) = Inl KeyError) \<and>
         (map_of ev (KStr ''queryStringParameters'') = Some PNone \<longrightarrow>
            json_endpoint_lambda_handler env s rnd (PDict ev) =
              random_item_response rnd (json_loads j)) \<and>
         (map_of ev (KStr ''queryStringParameters'') = Some (PDict params) \<and>
          map_of params (KStr ''id'') = None \<longrightarrow>
            json_endpoint_lambda_handler env s rnd (PDict ev) =
              random_item_response rnd (json_loads j))"
  by (auto simp add: handler_loaded[OF assms] query_id_def)

theorem query_event_needs_parameters_key_witness:
  "json_endpoint_lambda_handler example_env
      (s3_holding example_env (JsonText (JArray example_records))) 7
      (PDict [(KStr ''httpMethod'', PStr ''GET'')]) = Inl KeyError \<and>
   json_endpoint_lambda_handler example_env
      (s3_holding example_env (JsonText (JArray example_records))) 7
      (PDict [(KStr ''httpMethod'', PStr ''GET''), (KStr ''queryStringParameters'', PNone)]) =
   Inr \<lparr>statusCode = 200, body = example_records ! 1,
        headers = Some [(''Content-Type'', ''application/json'')]\<rparr>"
proof -
  have m: "7 mod Suc (Suc 0) = Suc 0"
    by presburger
  show ?thesis
  using query_event_needs_parameters_key[where env = example_env
      and s = "s3_holding example_env (JsonText (JArray example_records))"
      and obj = "\<lparr>Body = JsonText (JArray example_records), ContentType = ''application/json''\<rparr>"
      and j = "JArray example_records" and rnd = 7
      and ev = "[(KStr ''httpMethod'', PStr ''GET'')]"]
    query_event_needs_parameters_key[where env = example_env
      and s = "s3_holding example_env (JsonText (JArray example_records))"
      and obj = "\<lparr>Body = JsonText (JArray example_records), ContentType = ''application/json''\<rparr>"
      and j = "JArray example_records" and rnd = 7
      and ev = "[(KStr ''httpMethod'', PStr ''GET''), (KStr ''queryStringParameters'', PNone)]"]
  by (simp add: s3_holding_def example_records_def random_item_response_def json_response_def
      dict_def m)
qed

section \<open>The ingestion handler: properties\<close>

text \<open>
  C1, as amended. When the CSV is fetched with a status that is no error status, the
  reader yields a header row and then \<open>N\<close> non-empty rows (blank lines apart), and the
  store accepts the write, the handler stores a JSON array of exactly \<open>N\<close> objects. The
  object at index \<open>i\<close> has exactly one member named \<^verbatim>\<open>id\<close>; its value is the
  string of the UUID made from the \<open>i\<close>-th draw of random bytes, which is never empty.
  The \<^verbatim>\<open>id\<close> values are pairwise distinct exactly when the \<open>N\<close> UUIDs drawn are
  pairwise distinct: the handler has no check of its own against a repeated draw.
\<close>

theorem ingest_writes_one_record_per_row:
  assumes "web (csv_url env) = Fetched r"
    and "\<not> (400 \<le> status_code r \<and> status_code r < 600)"
    and "content r = Rows (header # data)"
    and "available s"
    and "rows = filter (\<lambda>row. row \<noteq> []) data"
  shows "\<exists>objs. stored_records env (snd (url_parser_lambda_handler env web urandom s)) = Some objs \<and>
           length objs = length rows \<and>
           (\<forall>i<length rows.
              member_values ''id'' (objs ! i) = [JString (uuid_str (uuid4 (urandom i)))] \<and>
              uuid_str (uuid4 (urandom i)) \<noteq> '''') \<and>
           (distinct (map (member_values ''id'') objs) \<longleftrightarrow>
              distinct (map (\<lambda>i. uuid4 (urandom i)) [0..<length rows]))"
proof -
  let ?f = "\<lambda>i. json_dumps (PDict (dict_set (KStr ''id'')
              (PStr (uuid_str (uuid4 (urandom i)))) (DictReader_row header (rows ! i))))"
  let ?objs = "map ?f [0..<length rows]"
  have st: "stored_records env (snd (url_parser_lambda_handler env web urandom s)) = Some ?objs"
    by (rule ingest_stored(3)[where web = web and env = env and r = r and s = s
          and fieldnames = header and rest = data and rows = rows, OF assms])
  have ids: "member_values ''id'' (?f i) = [JString (uuid_str (uuid4 (urandom i)))]" for i
    by (rule member_values_written_id) (rule distinct_DictReader_row)
  have m: "map (member_values ''id'') ?objs =
           map (\<lambda>i. [JString (uuid_str (uuid4 (urandom i)))]) [0..<length rows]"
    using ids by (simp add: comp_def del: upt_Suc)
  have d: "distinct (map (member_values ''id'') ?objs) \<longleftrightarrow>
           distinct (map (\<lambda>i. uuid4 (urandom i)) [0..<length rows])"
    unfolding m by (auto simp: distinct_map inj_on_def dest: uuid_str_inj)
  have n: "\<forall>i<length rows.
              member_values ''id'' (?objs ! i) = [JString (uuid_str (uuid4 (urandom i)))] \<and>
              uuid_str (uuid4 (urandom i)) \<noteq> ''''"
    using ids by (simp add: uuid_str_nonempty del: upt_Suc)
  have l: "length ?objs = length rows" by simp
  show ?thesis
    using st l n d by blast
qed

theorem ingest_writes_one_record_per_row_witness:
  "stored_records example_env
     (snd (url_parser_lambda_handler example_env (serve 200 (Rows example_rows))
            counting_urandom empty_s3)) = Some example_records"
proof -
  have "\<exists>objs. stored_records example_env
         (snd (url_parser_lambda_handler example_env (serve 200 (Rows example_rows))
            counting_urandom empty_s3)) = Some objs \<and>
           length objs = length (tl example_rows) \<and>
           (\<forall>i<length (tl example_rows).
              member_values ''id'' (objs ! i) = [JString (uuid_str (uuid4 (counting_urandom i)))] \<and>
              uuid_str (uuid4 (counting_urandom i)) \<noteq> '''') \<and>
           (distinct (map (member_values ''id'') objs) \<longleftrightarrow>
              distinct (map (\<lambda>i. uuid4 (counting_urandom i)) [0..<length (tl example_rows)]))"
    by (rule ingest_writes_one_record_per_row[where
          r = "\<lparr>status_code = 200, content = Rows example_rows\<rparr>"
          and header = "hd example_rows" and data = "tl example_rows"])
       (simp_all add: serve_def empty_s3_def example_rows_def)
  then show ?thesis
    by (simp add: url_parser_lambda_handler_def requests_get_def raise_for_status_def
        put_object_def Let_def serve_def empty_s3_def example_rows_def example_records_def
        example_env_def stored_records_def DictReader_def DictReader_row_def dict_def
        counting_urandom_0 counting_urandom_1 uuid_str_zero uuid_str_one)
qed

text \<open>
  The claim as stated fails for a source of random bytes that repeats a draw: both
  records of the example rows are stored with the same \<^verbatim>\<open>id\<close>.
\<close>

theorem ingest_ids_collide_counterexample:
  "stored_records example_env
     (snd (url_parser_lambda_handler example_env (serve 200 (Rows example_rows))
            stuck_urandom empty_s3)) =
   Some [JObject [(''name'', JString ''lemon''), (''color'', JString ''yellow''),
                  (''id'', JString ''00000000-0000-4000-8000-000000000000'')],
         JObject [(''name'', JString ''apple''), (''color'', JString ''red''),
                  (''id'', JString ''00000000-0000-4000-8000-000000000000'')]]"
  by (simp add: url_parser_lambda_handler_def requests_get_def raise_for_status_def
        put_object_def Let_def serve_def empty_s3_def example_rows_def
        example_env_def stored_records_def DictReader_def DictReader_row_def dict_def
        stuck_urandom_def uuid_str_zero)

text \<open>
  C8. When the CSV is fetched with a status that is no error status, its rows are the
  header row alone, and the store accepts the write, the handler writes the empty JSON
  array under the configured bucket and key, declared \<^verbatim>\<open>application/json\<close>, and
  returns status 200 with the confirmation message as body.
\<close>

theorem ingest_header_only_writes_empty_array:
  assumes "web (csv_url env) = Fetched r"
    and "\<not> (400 \<le> status_code r \<and> status_code r < 600)"
    and "content r = Rows [header]"
    and "available s"
  shows "url_parser_lambda_handler env web urandom s =
     (Inr \<lparr>statusCode = 200,
           body = JString ''CSV successfully processed and stored as JSON in S3'',
           headers = None\<rparr>,
      s\<lparr>objects := (objects s)((bucket_name env, json_key env) \<mapsto>
            \<lparr>Body = JsonText (JArray []), ContentType = ''application/json''\<rparr>)\<rparr>)"
  using assms
  by (simp add: url_parser_lambda_handler_def requests_get_def raise_for_status_def
      DictReader_def put_object_def)

theorem ingest_header_only_writes_empty_array_witness:
  "url_parser_lambda_handler example_env (serve 200 (Rows [[''name'', ''color'']]))
     counting_urandom empty_s3 =
     (Inr \<lparr>statusCode = 200,
           body = JString ''CSV successfully processed and stored as JSON in S3'',
           headers = None\<rparr>,
      empty_s3\<lparr>objects := (objects empty_s3)((bucket_name example_env, json_key example_env) \<mapsto>
            \<lparr>Body = JsonText (JArray []), ContentType = ''application/json''\<rparr>)\<rparr>)"
  by (rule ingest_header_only_writes_empty_array[where
        r = "\<lparr>status_code = 200, content = Rows [[''name'', ''color'']]\<rparr>"])
     (simp_all add: serve_def empty_s3_def)

text \<open>
  C7. When the header has an \<^verbatim>\<open>id\<close> column, the dictionary the reader builds for a
  row has an entry under \<^verbatim>\<open>id\<close> (the cell of that column, or \<^verbatim>\<open>None\<close> for a
  short row). In the stored object of the row that entry is replaced in place: the object
  has as many members as the dictionary has entries, exactly one member is named
  \<^verbatim>\<open>id\<close>, its value is the generated identifier, and the members of every other name are
  those of the row.
\<close>

theorem ingest_replaces_id_column:
  assumes "web (csv_url env) = Fetched r"
    and "\<not> (400 \<le> status_code r \<and> status_code r < 600)"
    and "content r = Rows (header # data)"
    and "available s"
    and "rows = filter (\<lambda>row. row \<noteq> []) data"
    and "i < length rows"
    and "''id'' \<in> set header"
  shows "\<exists>objs members cell.
           stored_records env (snd (url_parser_lambda_handler env web urandom s)) = Some objs \<and>
           map_of (DictReader_row header (rows ! i)) (KStr ''id'') = Some cell \<and>
           objs ! i = JObject members \<and>
           length members = length (DictReader_row header (rows ! i)) \<and>
           member_values ''id'' (objs ! i) = [JString (uuid_str (uuid4 (urandom i)))] \<and>
           (\<forall>name. name \<noteq> ''id'' \<longrightarrow>
              member_values name (objs ! i) =
              member_values name (json_dumps (PDict (DictReader_row header (rows ! i)))))"
proof -
  let ?d = "\<lambda>i. DictReader_row header (rows ! i)"
  let ?f = "\<lambda>i. json_dumps (PDict (dict_set (KStr ''id'')
              (PStr (uuid_str (uuid4 (urandom i)))) (?d i)))"
  let ?objs = "map ?f [0..<length rows]"
  have st: "stored_records env (snd (url_parser_lambda_handler env web urandom s)) = Some ?objs"
    by (rule ingest_stored(3)[where web = web and env = env and r = r and s = s
          and fieldnames = header and rest = data and rows = rows, OF assms(1-5)])
  have k: "KStr ''id'' \<in> set (map fst (?d i))"
    using assms(7) by (simp add: keys_DictReader_row del: set_map)
  then obtain cell where c: "map_of (?d i) (KStr ''id'') = Some cell"
    by (cases "map_of (?d i) (KStr ''id'')") (auto simp: map_of_eq_None_iff)
  have n: "?objs ! i = ?f i"
    using assms(6) by (simp del: upt_Suc)
  have m: "?f i = JObject (map (map_prod key_name json_dumps)
             (dict_set (KStr ''id'') (PStr (uuid_str (uuid4 (urandom i)))) (?d i)))"
    by simp
  have l: "length (map (map_prod key_name json_dumps)
             (dict_set (KStr ''id'') (PStr (uuid_str (uuid4 (urandom i)))) (?d i))) = length (?d i)"
    using k by (simp add: length_dict_set del: set_map)
  have ids: "member_values ''id'' (?f i) = [JString (uuid_str (uuid4 (urandom i)))]"
    by (rule member_values_written_id) (rule distinct_DictReader_row)
  have others: "\<forall>name. name \<noteq> ''id'' \<longrightarrow>
              member_values name (?f i) = member_values name (json_dumps (PDict (?d i)))"
    using member_values_written_other by blast
  show ?thesis
  proof (intro exI conjI)
    show "stored_records env (snd (url_parser_lambda_handler env web urandom s)) = Some ?objs"
      by (rule st)
    show "map_of (?d i) (KStr ''id'') = Some cell"
      by (rule c)
    show "?objs ! i = JObject (map (map_prod key_name json_dumps)
             (dict_set (KStr ''id'') (PStr (uuid_str (uuid4 (urandom i)))) (?d i)))"
      using n m by simp
    show "length (map (map_prod key_name json_dumps)
             (dict_set (KStr ''id'') (PStr (uuid_str (uuid4 (urandom i)))) (?d i))) = length (?d i)"
      by (rule l)
    show "member_values ''id'' (?objs ! i) = [JString (uuid_str (uuid4 (urandom i)))]"
      using ids n by simp
    show "\<forall>name. name \<noteq> ''id'' \<longrightarrow>
              member_values name (?objs ! i) = member_values name (json_dumps (PDict (?d i)))"
      using others n by simp
  qed
qed

theorem ingest_replaces_id_column_witness:
  "stored_records example_env
     (snd (url_parser_lambda_handler example_env
             (serve 200 (Rows [[''id'', ''name''], [''7'', ''lemon'']])) counting_urandom empty_s3)) =
   Some [JObject [(''id'', JString ''00000000-0000-4000-8000-000000000000''),
                  (''name'', JString ''lemon'')]]"
proof -
  have "\<exists>objs members cell.
           stored_records example_env (snd (url_parser_lambda_handler example_env
             (serve 200 (Rows [[''id'', ''name''], [''7'', ''lemon'']])) counting_urandom empty_s3)) = Some objs \<and>
           map_of (DictReader_row [''id'', ''name''] ([[''7'', ''lemon'']] ! 0)) (KStr ''id'') = Some cell \<and>
           objs ! 0 = JObject members \<and>
           length members = length (DictReader_row [''id'', ''name''] ([[''7'', ''lemon'']] ! 0)) \<and>
           member_values ''id'' (objs ! 0) = [JString (uuid_str (uuid4 (counting_urandom 0)))] \<and>
           (\<forall>name. name \<noteq> ''id'' \<longrightarrow>
              member_values name (objs ! 0) =
              member_values name (json_dumps (PDict (DictReader_row [''id'', ''name''] ([[''7'', ''lemon'']] ! 0)))))"
    by (rule ingest_replaces_id_column[where
          r = "\<lparr>status_code = 200, content = Rows [[''id'', ''name''], [''7'', ''lemon'']]\<rparr>"
          and data = "[[''7'', ''lemon'']]"])
       (simp_all add: serve_def empty_s3_def)
  then show ?thesis
    by (simp add: url_parser_lambda_handler_def requests_get_def raise_for_status_def
        put_object_def Let_def serve_def empty_s3_def
        example_env_def stored_records_def DictReader_def DictReader_row_def dict_def
        counting_urandom_0 uuid_str_zero)
qed

text \<open>
  C5, as amended. When the retrieval fails (a network error, or a response with a
  status from 400 to 599), or the body cannot be decoded or read as CSV, the handler
  ends in the error and the store is the one it was called with. More generally,
  whenever the handler ends in an error, the store is unchanged: the write is its last
  effect.
\<close>

theorem ingest_failure_writes_nothing:
  "(web (csv_url env) = Unreachable \<longrightarrow>
      url_parser_lambda_handler env web urandom s = (Inl ConnectionError, s)) \<and>
   (\<forall>r. web (csv_url env) = Fetched r \<and> 400 \<le> status_code r \<and> status_code r < 600 \<longrightarrow>
      url_parser_lambda_handler env web urandom s = (Inl (HTTPError (status_code r)), s)) \<and>
   (\<forall>r. web (csv_url env) = Fetched r \<and> \<not> (400 \<le> status_code r \<and> status_code r < 600) \<and>
        content r = Undecodable \<longrightarrow>
      url_parser_lambda_handler env web urandom s = (Inl UnicodeDecodeError, s)) \<and>
   (\<forall>r. web (csv_url env) = Fetched r \<and> \<not> (400 \<le> status_code r \<and> status_code r < 600) \<and>
        content r = Unreadable \<longrightarrow>
      url_parser_lambda_handler env web urandom s = (Inl CsvError, s)) \<and>
   (\<forall>e. fst (url_parser_lambda_handler env web urandom s) = Inl e \<longrightarrow>
      snd (url_parser_lambda_handler env web urandom s) = s)"
  by (auto simp add: url_parser_lambda_handler_def requests_get_def raise_for_status_def
      put_object_def Let_def split: fetch.splits sum.splits content.splits if_splits)

theorem ingest_failure_writes_nothing_witness:
  "url_parser_lambda_handler example_env (serve 404 (Rows example_rows)) counting_urandom
     (s3_holding example_env (JsonText (JArray example_records))) =
   (Inl (HTTPError 404), s3_holding example_env (JsonText (JArray example_records)))"
  using ingest_failure_writes_nothing[of "serve 404 (Rows example_rows)" example_env
      counting_urandom "s3_holding example_env (JsonText (JArray example_records))"]
  by (simp add: serve_def)

text \<open>
  The claim as stated fails for a status that is neither 2xx nor an error status for
  \<^verbatim>\<open>raise_for_status\<close>: on a 304 response with an empty body the handler succeeds and
  overwrites the stored record set with the empty array.
\<close>

theorem ingest_status_304_overwrites_counterexample:
  "fst (url_parser_lambda_handler example_env (serve 304 (Rows [])) counting_urandom
          (s3_holding example_env (JsonText (JArray example_records)))) =
     Inr \<lparr>statusCode = 200,
          body = JString ''CSV successfully processed and stored as JSON in S3'',
          headers = None\<rparr> \<and>
   stored_records example_env (s3_holding example_env (JsonText (JArray example_records))) =
     Some example_records \<and>
   stored_records example_env
     (snd (url_parser_lambda_handler example_env (serve 304 (Rows [])) counting_urandom
          (s3_holding example_env (JsonText (JArray example_records))))) = Some []"
  by (simp add: url_parser_lambda_handler_def requests_get_def raise_for_status_def
        put_object_def Let_def serve_def s3_holding_def
        example_env_def stored_records_def DictReader_def)

section \<open>Ingestion followed by a query\<close>

text \<open>
  C6, as amended. Let an ingestion run succeed, let the UUIDs it draws be pairwise
  distinct, and take a record it wrote whose JSON object repeats no member name (the
  header has no column named \<^verbatim>\<open>null\<close>, or the row has no more cells than the header).
  A query against the store the run left, with the \<^verbatim>\<open>id\<close> parameter equal to that
  record's \<^verbatim>\<open>id\<close>, answers with status 200, the JSON header and, as body, exactly the
  JSON object that was written.
\<close>

theorem ingest_then_query_round_trip:
  assumes "web (csv_url env) = Fetched r"
    and "\<not> (400 \<le> status_code r \<and> status_code r < 600)"
    and "content r = Rows (header # data)"
    and "available s"
    and "rows = filter (\<lambda>row. row \<noteq> []) data"
    and "distinct (map (\<lambda>i. uuid4 (urandom i)) [0..<length rows])"
    and "i < length rows"
    and "''null'' \<notin> set header \<or> length (rows ! i) \<le> length header"
    and "query_id event = Inr (PStr (uuid_str (uuid4 (urandom i))))"
  shows "\<exists>objs. stored_records env (snd (url_parser_lambda_handler env web urandom s)) = Some objs \<and>
           i < length objs \<and>
           member_values ''id'' (objs ! i) = [JString (uuid_str (uuid4 (urandom i)))] \<and>
           json_endpoint_lambda_handler env (snd (url_parser_lambda_handler env web urandom s))
               rnd event =
             Inr \<lparr>statusCode = 200, body = objs ! i,
                  headers = Some [(''Content-Type'', ''application/json'')]\<rparr>"
proof -
  let ?s' = "snd (url_parser_lambda_handler env web urandom s)"
  let ?ids = "\<lambda>i. uuid_str (uuid4 (urandom i))"
  let ?f = "\<lambda>i. json_dumps (PDict (dict_set (KStr ''id'')
              (PStr (?ids i)) (DictReader_row header (rows ! i))))"
  let ?objs = "map ?f [0..<length rows]"
  note st = ingest_stored[where web = web and env = env and r = r and s = s
          and fieldnames = header and rest = data and rows = rows and urandom = urandom,
          OF assms(1-5)]
  have ids: "member_values ''id'' (?f j) = [JString (?ids j)]" for j
    by (rule member_values_written_id) (rule distinct_DictReader_row)
  have all_ids: "\<forall>j<length ?objs. member_values ''id'' (?objs ! j) = [JString (?ids j)]"
    using ids by (simp del: upt_Suc)
  have li: "i < length ?objs"
    using assms(7) by simp
  have ne: "\<forall>j<i. ?ids j \<noteq> ?ids i"
  proof (intro allI impI notI)
    fix j assume j: "j < i" and e: "?ids j = ?ids i"
    then have "uuid4 (urandom j) = uuid4 (urandom i)"
      by (auto dest: uuid_str_inj)
    then have "j = i"
      using assms(6,7) j by (auto simp: distinct_map inj_on_def)
    then show False using j by simp
  qed
  have un: "unique_names (?objs ! i)"
    using assms(7,8) by (simp add: unique_names_written del: upt_Suc json_dumps.simps)
  have q: "json_endpoint_lambda_handler env ?s' rnd event =
             Inr \<lparr>statusCode = 200, body = ?objs ! i,
                  headers = Some [(''Content-Type'', ''application/json'')]\<rparr>"
    by (rule query_returns_stored_record[where ids = ?ids, OF st(2) st(4) _ all_ids li ne
          uuid_str_nonempty un assms(9)]) simp
  have m: "member_values ''id'' (?objs ! i) = [JString (?ids i)]"
    using all_ids li by blast
  show ?thesis
    using st(3) li m q by blast
qed

theorem ingest_then_query_round_trip_witness:
  "json_endpoint_lambda_handler example_env
     (snd (url_parser_lambda_handler example_env (serve 200 (Rows example_rows))
            counting_urandom empty_s3)) 0
     (id_event ''00000000-0000-4000-8000-000000000001'') =
   Inr \<lparr>statusCode = 200, body = example_records ! 1,
        headers = Some [(''Content-Type'', ''application/json'')]\<rparr>"
proof -
  have d: "uuid4 0 \<noteq> uuid4 1"
    by (simp add: uuid4_def)
  have "\<exists>objs. stored_records example_env
         (snd (url_parser_lambda_handler example_env (serve 200 (Rows example_rows))
            counting_urandom empty_s3)) = Some objs \<and>
           1 < length objs \<and>
           member_values ''id'' (objs ! 1) = [JString (uuid_str (uuid4 (counting_urandom 1)))] \<and>
           json_endpoint_lambda_handler example_env
             (snd (url_parser_lambda_handler example_env (serve 200 (Rows example_rows))
            counting_urandom empty_s3)) 0 (id_event ''00000000-0000-4000-8000-000000000001'') =
             Inr \<lparr>statusCode = 200, body = objs ! 1,
                  headers = Some [(''Content-Type'', ''application/json'')]\<rparr>"
    by (rule ingest_then_query_round_trip[where
          r = "\<lparr>status_code = 200, content = Rows example_rows\<rparr>"
          and header = "hd example_rows" and data = "tl example_rows"
          and rows = "tl example_rows"])
       (simp_all add: serve_def empty_s3_def example_rows_def id_event_def query_id_def
          counting_urandom_0 counting_urandom_1 uuid_str_zero uuid_str_one
          upt_rec[of _ "numeral n" for n] d)
  moreover have "stored_records example_env
     (snd (url_parser_lambda_handler example_env (serve 200 (Rows example_rows))
            counting_urandom empty_s3)) = Some example_records"
    by (simp add: url_parser_lambda_handler_def requests_get_def raise_for_status_def
        put_object_def Let_def serve_def empty_s3_def example_rows_def example_records_def
        example_env_def stored_records_def DictReader_def DictReader_row_def dict_def
        counting_urandom_0 counting_urandom_1 uuid_str_zero uuid_str_one)
  ultimately show ?thesis
    by auto
qed

text \<open>
  The claim as stated fails for a CSV with a column named \<^verbatim>\<open>null\<close> and a row longer
  than the header: the surplus cells are written under the key \<^verbatim>\<open>None\<close>, that is as a
  second member named \<^verbatim>\<open>null\<close>, and the query returns an object without the
  \<^verbatim>\<open>null\<close> cell of the row. It also fails for a run that draws the same UUID twice:
  the query by the \<^verbatim>\<open>id\<close> of the second record returns the first.
\<close>

theorem round_trip_null_column_counterexample:
  "stored_records example_env
     (snd (url_parser_lambda_handler example_env
             (serve 200 (Rows [[''null'', ''x''], [''a'', ''b'', ''c'']]))
             counting_urandom empty_s3)) =
     Some [JObject [(''null'', JString ''a''), (''x'', JString ''b''),
                    (''null'', JArray [JString ''c'']),
                    (''id'', JString ''00000000-0000-4000-8000-000000000000'')]] \<and>
   json_endpoint_lambda_handler example_env
     (snd (url_parser_lambda_handler example_env
             (serve 200 (Rows [[''null'', ''x''], [''a'', ''b'', ''c'']]))
             counting_urandom empty_s3)) 0
     (id_event ''00000000-0000-4000-8000-000000000000'') =
     Inr \<lparr>statusCode = 200,
          body = JObject [(''null'', JArray [JString ''c'']), (''x'', JString ''b''),
                          (''id'', JString ''00000000-0000-4000-8000-000000000000'')],
          headers = Some [(''Content-Type'', ''application/json'')]\<rparr> \<and>
   stored_records example_env
     (snd (url_parser_lambda_handler example_env (serve 200 (Rows example_rows))
             stuck_urandom empty_s3)) =
     Some [JObject [(''name'', JString ''lemon''), (''color'', JString ''yellow''),
                    (''id'', JString ''00000000-0000-4000-8000-000000000000'')],
           JObject [(''name'', JString ''apple''), (''color'', JString ''red''),
                    (''id'', JString ''00000000-0000-4000-8000-000000000000'')]] \<and>
   json_endpoint_lambda_handler example_env
     (snd (url_parser_lambda_handler example_env (serve 200 (Rows example_rows))
             stuck_urandom empty_s3)) 0
     (id_event ''00000000-0000-4000-8000-000000000000'') =
     Inr \<lparr>statusCode = 200,
          body = JObject [(''name'', JString ''lemon''), (''color'', JString ''yellow''),
                          (''id'', JString ''00000000-0000-4000-8000-000000000000'')],
          headers = Some [(''Content-Type'', ''application/json'')]\<rparr>"
  by (simp add: url_parser_lambda_handler_def requests_get_def raise_for_status_def
        put_object_def Let_def serve_def empty_s3_def example_rows_def
        example_env_def stored_records_def DictReader_def DictReader_row_def dict_def
        counting_urandom_0 stuck_urandom_def uuid_str_zero
        json_endpoint_lambda_handler_def get_object_def id_event_def json_response_def)

end
